theory Spec2Isabelle
  imports
    Complex_Main
    "HOL-Library.Multiset"
    "HOL-Library.Product_Lexorder"
    "HOL-Library.Char_ord"
    "HOL-Library.List_Lexorder"
    "HOL-Library.Sublist"
begin

section \<open>Data model\<close>

text \<open>
  The dashboard \<^verbatim>\<open>app.py\<close> consists of the loader \<^verbatim>\<open>load_data\<close> and of one branch per
  page; the branch "AQI Category Analysis" is the classifier.  Both are chains of pandas
  calls on data frames.  A data frame is modelled by its column labels and its list of rows,
  a numeric cell by \<^typ>\<open>real option\<close> (\<open>None\<close> is pandas' NaN, the absent value), and an
  exception by a value of the type \<open>error\<close>.  The columns have the types of the source
  format: the column \<^verbatim>\<open>Month\<close> holds a text in every row, every other column of a file
  holds numbers or nothing.  The comparisons that the code makes on AQI values are exact on
  floating-point numbers, so the values are modelled by real numbers.

  A calendar date (a pandas \<^verbatim>\<open>Timestamp\<close> at midnight) is the triple (year, month, day)
  under the lexicographic order, which is the order of the timestamps.
\<close>

type_synonym date = "int \<times> nat \<times> nat"

datatype error =
    FileNotFoundError string
  | KeyError string
  | ValueError string

text \<open>
  One row of a per-year CSV file as \<^verbatim>\<open>pd.read_csv\<close> returns it: the text of its
  \<^verbatim>\<open>Month\<close> column and the numeric cells of the other columns, by column label.
\<close>

type_synonym csv_row = "string \<times> (string \<Rightarrow> real option)"

text \<open>
  The frame read from one file: \<open>header\<close> lists the labels of the columns other than
  \<^verbatim>\<open>Month\<close> in file order (\<^verbatim>\<open>read_csv\<close> makes repeated labels distinct), \<open>body\<close> the rows.
\<close>

record data_frame =
  header :: "string list"
  body :: "csv_row list"

text \<open>A row of the wide frame \<^verbatim>\<open>combined_df\<close>: Month, Year and the cells by column label.\<close>

type_synonym wide_row = "string \<times> int \<times> (string \<Rightarrow> real option)"

record wide_frame =
  columns :: "string list"
  rows :: "wide_row list"

text \<open>A row of the long frame that \<^verbatim>\<open>pd.melt\<close> returns: Month, Year, Location, AQI.\<close>

type_synonym long_row = "string \<times> int \<times> string \<times> real option"

text \<open>A row of the frame \<^verbatim>\<open>melted_df\<close> once the column \<^verbatim>\<open>Date\<close> is set: an Observation.\<close>

record observation =
  Month :: string
  Year :: int
  Location :: string
  AQI :: "real option"
  Date :: date

section \<open>The loader \<^verbatim>\<open>load_data\<close>\<close>

subsection \<open>Reading the files\<close>

text \<open>\<^verbatim>\<open>years = range(2016, 2024)\<close>\<close>

definition years :: "int list" where
  "years = [2016..2023]"

text \<open>The position of the first occurrence of an element in a list (\<^verbatim>\<open>list.index\<close>).\<close>

fun index_of :: "'a \<Rightarrow> 'a list \<Rightarrow> nat option" where
  "index_of x [] = None"
| "index_of x (y # ys) = (if x = y then Some 0 else map_option Suc (index_of x ys))"

text \<open>\<^verbatim>\<open>str\<close> of an integer: its decimal digits, with a sign when negative.\<close>

definition digits :: string where
  "digits = ''0123456789''"

definition digit_char :: "nat \<Rightarrow> char" where
  "digit_char n = digits ! n"

function str_nat :: "nat \<Rightarrow> string" where
  "str_nat n = (if n < 10 then [digit_char n] else str_nat (n div 10) @ [digit_char (n mod 10)])"
  by pat_completeness auto
termination
  by (relation "measure (\<lambda>n. n)") auto

declare str_nat.simps [simp del]

definition str_int :: "int \<Rightarrow> string" where
  "str_int i = (if i < 0 then CHR ''-'' # str_nat (nat (- i)) else str_nat (nat i))"

text \<open>\<^verbatim>\<open>file_path = f'Data/hyd_air_quality_{year}.csv'\<close>\<close>

definition file_path :: "int \<Rightarrow> string" where
  "file_path year = ''Data/hyd_air_quality_'' @ str_int year @ ''.csv''"

text \<open>
  The loop over \<^verbatim>\<open>years\<close>.  The file system is a partial map from paths to the frames that
  \<^verbatim>\<open>read_csv\<close> parses from them; a missing file raises.  \<^verbatim>\<open>df['Year'] = year\<close> and
  \<^verbatim>\<open>dfs[year] = df\<close> give the dictionary \<^verbatim>\<open>dfs\<close>, whose keys are in insertion order: it is
  the association list of the years and their frames.
\<close>

fun read_years :: "(string \<Rightarrow> data_frame option) \<Rightarrow> int list \<Rightarrow> error + (int \<times> data_frame) list" where
  "read_years fs [] = Inr []"
| "read_years fs (year # ys) =
     (case fs (file_path year) of
        None \<Rightarrow> Inl (FileNotFoundError (file_path year))
      | Some df \<Rightarrow>
          (case read_years fs ys of
             Inl e \<Rightarrow> Inl e
           | Inr dfs \<Rightarrow> Inr ((year, df) # dfs)))"

subsection \<open>Concatenation\<close>

text \<open>
  The column labels of a frame after \<^verbatim>\<open>df['Year'] = year\<close>: the assignment overwrites a
  column of that label and appends the column otherwise.
\<close>

definition with_Year :: "string list \<Rightarrow> string list" where
  "with_Year h = (if ''Year'' \<in> set h then h else h @ [''Year''])"

text \<open>The distinct elements of a list in the order of their first occurrence.\<close>

definition first_seen :: "'a list \<Rightarrow> 'a list" where
  "first_seen xs = rev (remdups (rev xs))"

text \<open>
  \<^verbatim>\<open>pd.concat(dfs.values(), ignore_index=True)\<close>: the columns are the union of the frames'
  columns in the order of first occurrence, the rows are the frames' rows, one frame after
  the other, and a cell of a column that the row's own frame lacks is absent.
\<close>

definition frame_rows :: "int \<times> data_frame \<Rightarrow> wide_row list" where
  "frame_rows yd =
     map (\<lambda>(m, c). (m, fst yd, \<lambda>col. if col \<in> set (header (snd yd)) then c col else None))
         (body (snd yd))"

definition pd_concat :: "(int \<times> data_frame) list \<Rightarrow> wide_frame" where
  "pd_concat dfs =
     \<lparr> columns = first_seen (concat (map (\<lambda>yd. with_Year (header (snd yd))) dfs)),
       rows = concat (map frame_rows dfs) \<rparr>"

subsection \<open>Melting\<close>

text \<open>
  \<^verbatim>\<open>pd.melt(combined_df, id_vars=['Month', 'Year'], var_name='Location', value_name='AQI')\<close>:
  the value columns are the columns that are not identifiers; the result holds, for one
  value column after the other, one row per row of the wide frame.
\<close>

definition id_vars :: "string list" where
  "id_vars = [''Month'', ''Year'']"

definition value_vars :: "wide_frame \<Rightarrow> string list" where
  "value_vars f = filter (\<lambda>c. c \<notin> set id_vars) (columns f)"

definition melt :: "wide_frame \<Rightarrow> long_row list" where
  "melt f = concat (map (\<lambda>col. map (\<lambda>(m, y, c). (m, y, col, c col)) (rows f)) (value_vars f))"

subsection \<open>Parsing the dates\<close>

text \<open>
  \<^verbatim>\<open>pd.to_datetime(..., format='%Y-%b')\<close> parses each text as four digits, a hyphen and an
  abbreviated month name, and yields the first day of that month.  The directive
  \<^verbatim>\<open>%b\<close> stands for the twelve abbreviations of the C locale and, as in Python's
  \<^verbatim>\<open>strptime\<close>, is matched without regard to letter case.  The first text that does not
  match raises a \<^verbatim>\<open>ValueError\<close> whose message gives that text.
\<close>

definition month_abbr :: "string list" where
  "month_abbr = [''jan'', ''feb'', ''mar'', ''apr'', ''may'', ''jun'',
                 ''jul'', ''aug'', ''sep'', ''oct'', ''nov'', ''dec'']"

definition ascii_uppercase :: string where
  "ascii_uppercase = ''ABCDEFGHIJKLMNOPQRSTUVWXYZ''"

definition ascii_lowercase :: string where
  "ascii_lowercase = ''abcdefghijklmnopqrstuvwxyz''"

definition lower :: "char \<Rightarrow> char" where
  "lower c = (case map_of (zip ascii_uppercase ascii_lowercase) c of None \<Rightarrow> c | Some d \<Rightarrow> d)"

definition strptime_b :: "string \<Rightarrow> nat option" where
  "strptime_b s = map_option Suc (index_of (map lower s) month_abbr)"

definition is_digit :: "char \<Rightarrow> bool" where
  "is_digit c \<longleftrightarrow> c \<in> set digits"

definition digit_val :: "char \<Rightarrow> nat" where
  "digit_val c = (case index_of c digits of None \<Rightarrow> 0 | Some n \<Rightarrow> n)"

definition strptime_Yb :: "string \<Rightarrow> date option" where
  "strptime_Yb s =
     (case s of
        a # b # c # d # sep # rest \<Rightarrow>
          if is_digit a \<and> is_digit b \<and> is_digit c \<and> is_digit d \<and> sep = CHR ''-''
          then (case strptime_b rest of
                  None \<Rightarrow> None
                | Some m \<Rightarrow>
                    Some (int (1000 * digit_val a + 100 * digit_val b
                               + 10 * digit_val c + digit_val d), m, 1))
          else None
      | _ \<Rightarrow> None)"

fun to_datetime :: "string list \<Rightarrow> error + date list" where
  "to_datetime [] = Inr []"
| "to_datetime (s # ss) =
     (case strptime_Yb s of
        None \<Rightarrow> Inl (ValueError s)
      | Some d \<Rightarrow>
          (case to_datetime ss of
             Inl e \<Rightarrow> Inl e
           | Inr ds \<Rightarrow> Inr (d # ds)))"

text \<open>\<^verbatim>\<open>melted_df['Year'].astype(str) + '-' + melted_df['Month']\<close>\<close>

definition date_text :: "long_row \<Rightarrow> string" where
  "date_text r = (case r of (m, y, l, a) \<Rightarrow> str_int y @ ''-'' @ m)"

text \<open>\<^verbatim>\<open>melted_df['Date'] = ...\<close>\<close>

definition set_Date :: "long_row \<Rightarrow> date \<Rightarrow> observation" where
  "set_Date r d =
     (case r of (m, y, l, a) \<Rightarrow> \<lparr> Month = m, Year = y, Location = l, AQI = a, Date = d \<rparr>)"

subsection \<open>Sorting\<close>

text \<open>
  \<^verbatim>\<open>melted_df.sort_values('Date')\<close> asks numpy for an index array that sorts the column
  (\<^verbatim>\<open>argsort\<close>) and takes the rows in that order.  The call names no \<^verbatim>\<open>kind\<close>, so pandas
  uses its default \<^verbatim>\<open>'quicksort'\<close>, which pandas documents as not stable.  The algorithm
  is therefore a parameter of the model; what numpy promises of it is
  \<open>argsort_contract\<close>: the index array is a permutation of the positions, and the keys read
  in its order ascend.
\<close>

definition argsort_contract :: "(date list \<Rightarrow> nat list) \<Rightarrow> bool" where
  "argsort_contract argsort \<longleftrightarrow>
     (\<forall>ks. mset (argsort ks) = mset [0..<length ks] \<and> sorted (map (\<lambda>i. ks ! i) (argsort ks)))"

definition sort_values :: "(date list \<Rightarrow> nat list) \<Rightarrow> observation list \<Rightarrow> observation list" where
  "sort_values argsort df = map (\<lambda>i. df ! i) (argsort (map Date df))"

text \<open>Two algorithms that keep the contract: one stable, one that reverses equal keys.\<close>

definition argsort_stable :: "date list \<Rightarrow> nat list" where
  "argsort_stable ks = sort_key (\<lambda>i. ks ! i) [0..<length ks]"


subsection \<open>The loader\<close>

definition combined_df :: "(int \<times> data_frame) list \<Rightarrow> wide_frame" where
  "combined_df dfs = pd_concat dfs"

definition load_data ::
  "(date list \<Rightarrow> nat list) \<Rightarrow> (string \<Rightarrow> data_frame option) \<Rightarrow> error + observation list" where
  "load_data argsort fs =
     (case read_years fs years of
        Inl e \<Rightarrow> Inl e
      | Inr dfs \<Rightarrow>
          (let melted_df = melt (combined_df dfs) in
           case to_datetime (map date_text melted_df) of
             Inl e \<Rightarrow> Inl e
           | Inr dates \<Rightarrow> Inr (sort_values argsort (map2 set_Date melted_df dates))))"

text \<open>
  The frame \<^verbatim>\<open>melted_df\<close> as it is just before the sort: the rows in the order of the
  concatenation and the melt, each with its date.
\<close>

definition melted_dated :: "(string \<Rightarrow> data_frame option) \<Rightarrow> error + observation list" where
  "melted_dated fs =
     (case read_years fs years of
        Inl e \<Rightarrow> Inl e
      | Inr dfs \<Rightarrow>
          (let melted = melt (combined_df dfs) in
           case to_datetime (map date_text melted) of
             Inl e \<Rightarrow> Inl e
           | Inr dates \<Rightarrow> Inr (map2 set_Date melted dates)))"

section \<open>The classifier: page "AQI Category Analysis"\<close>

text \<open>
  A bound of a band is an integer literal or \<^verbatim>\<open>float("inf")\<close>.  The dictionary
  \<^verbatim>\<open>aqi_categories\<close> is the association list of its items in insertion order.
\<close>

datatype number = Finite real | Infinity

definition aqi_categories :: "(string \<times> number \<times> number) list" where
  "aqi_categories =
     [(''GOOD'', Finite 0, Finite 50),
      (''SATISFACTORY'', Finite 51, Finite 100),
      (''MODERATE'', Finite 101, Finite 200),
      (''POOR'', Finite 201, Finite 300),
      (''VERY POOR'', Finite 301, Finite 400),
      (''SEVERE'', Finite 401, Infinity)]"

text \<open>\<^verbatim>\<open>aqi_categories[selected_category]\<close>: a key that is not in the dictionary raises.\<close>

definition getitem :: "(string \<times> 'v) list \<Rightarrow> string \<Rightarrow> error + 'v" where
  "getitem d k = (case map_of d k of None \<Rightarrow> Inl (KeyError k) | Some v \<Rightarrow> Inr v)"

text \<open>
  The comparisons of a column with a scalar, cell by cell.  A comparison with NaN is false.
\<close>

fun ge :: "real option \<Rightarrow> number \<Rightarrow> bool" where
  "ge None b = False"
| "ge (Some a) (Finite b) = (b \<le> a)"
| "ge (Some a) Infinity = False"

fun le :: "real option \<Rightarrow> number \<Rightarrow> bool" where
  "le None b = False"
| "le (Some a) (Finite b) = (a \<le> b)"
| "le (Some a) Infinity = True"

text \<open>
  \<^verbatim>\<open>melted_df[(melted_df["AQI"] >= lower_bound) & (melted_df["AQI"] <= upper_bound)]\<close>:
  two boolean columns, their conjunction, and the rows at which the mask is true.
\<close>

definition filtered_df :: "number \<Rightarrow> number \<Rightarrow> observation list \<Rightarrow> observation list" where
  "filtered_df lower_bound upper_bound melted_df =
     (let mask = map2 (\<and>) (map (\<lambda>a. ge a lower_bound) (map AQI melted_df))
                          (map (\<lambda>a. le a upper_bound) (map AQI melted_df))
      in map fst (filter snd (zip melted_df mask)))"

text \<open>
  \<^verbatim>\<open>groupby(["Location", "Year"]).size()\<close>: one entry per key that occurs, in ascending
  order of the keys, with the number of rows of that key.
\<close>

definition groupby_size :: "observation list \<Rightarrow> ((string \<times> int) \<times> nat) list" where
  "groupby_size df =
     map (\<lambda>k. (k, length (filter (\<lambda>r. (Location r, Year r) = k) df)))
         (sort (remdups (map (\<lambda>r. (Location r, Year r)) df)))"

text \<open>
  \<^verbatim>\<open>unstack(fill_value=0)\<close>: the first level of the keys labels the rows, the second the
  columns; a cell whose key has no entry holds the fill value.
\<close>

record count_table =
  index :: "string list"
  cols :: "int list"
  cell :: "string \<Rightarrow> int \<Rightarrow> nat"

definition unstack :: "nat \<Rightarrow> ((string \<times> int) \<times> nat) list \<Rightarrow> count_table" where
  "unstack fill_value s =
     \<lparr> index = sort (remdups (map (\<lambda>e. fst (fst e)) s)),
       cols = sort (remdups (map (\<lambda>e. snd (fst e)) s)),
       cell = (\<lambda>l y. case map_of s (l, y) of None \<Rightarrow> fill_value | Some n \<Rightarrow> n) \<rparr>"

definition chart_data :: "observation list \<Rightarrow> count_table" where
  "chart_data filtered = unstack 0 (groupby_size filtered)"

text \<open>The entry of a table at a row label and a column label, if the table has both.\<close>

definition entry :: "count_table \<Rightarrow> string \<Rightarrow> int \<Rightarrow> nat option" where
  "entry t l y = (if l \<in> set (index t) \<and> y \<in> set (cols t) then Some (cell t l y) else None)"

text \<open>The branch of the page: the filtered list and the counting table, or the exception.\<close>

definition category_analysis ::
  "string \<Rightarrow> observation list \<Rightarrow> error + (observation list \<times> count_table)" where
  "category_analysis selected_category melted_df =
     (case getitem aqi_categories selected_category of
        Inl e \<Rightarrow> Inl e
      | Inr (lower_bound, upper_bound) \<Rightarrow>
          (let filtered = filtered_df lower_bound upper_bound melted_df
           in Inr (filtered, chart_data filtered)))"

section \<open>Notions of the specification\<close>

text \<open>
  An Observation lies in a band with the bounds \<open>lo\<close> and \<open>hi\<close> when its AQI value is present
  and at least \<open>lo\<close> and at most \<open>hi\<close>, where nothing is above an infinite bound.
\<close>

definition present_in_range :: "number \<Rightarrow> number \<Rightarrow> observation \<Rightarrow> bool" where
  "present_in_range lo hi r \<longleftrightarrow>
     (case AQI r of
        None \<Rightarrow> False
      | Some a \<Rightarrow> (case lo of Finite l \<Rightarrow> l \<le> a | Infinity \<Rightarrow> False)
                \<and> (case hi of Finite h \<Rightarrow> a \<le> h | Infinity \<Rightarrow> True))"

text \<open>An AQI value falls within a band of \<open>aqi_categories\<close>, decided by the code's comparisons.\<close>

definition in_band :: "real \<Rightarrow> string \<times> number \<times> number \<Rightarrow> bool" where
  "in_band a b \<longleftrightarrow> ge (Some a) (fst (snd b)) \<and> le (Some a) (snd (snd b))"

text \<open>The number of the calendar month that a Month value names, 0 if it names none.\<close>

definition month_number :: "string \<Rightarrow> nat" where
  "month_number m = (case strptime_b m of None \<Rightarrow> 0 | Some k \<Rightarrow> k)"

text \<open>
  The Observation of a row of the long frame: its date is the first day of the month that its
  Month value names, in its year.
\<close>

definition observation_of :: "long_row \<Rightarrow> observation" where
  "observation_of r =
     (case r of (m, y, l, a) \<Rightarrow>
        \<lparr> Month = m, Year = y, Location = l, AQI = a, Date = (y, month_number m, 1) \<rparr>)"

text \<open>The frames that the loader reads, in the order of the years.\<close>

definition sources :: "(string \<Rightarrow> data_frame option) \<Rightarrow> (int \<times> data_frame) list" where
  "sources fs = concat (map (\<lambda>y. case fs (file_path y) of None \<Rightarrow> [] | Some df \<Rightarrow> [(y, df)]) years)"

text \<open>A frame has one row per calendar month: its Month values name each month once.\<close>

definition one_row_per_month :: "data_frame \<Rightarrow> bool" where
  "one_row_per_month df \<longleftrightarrow> mset (map (\<lambda>r. strptime_b (fst r)) (body df)) = mset (map Some [1..<13])"

section \<open>Sample inputs\<close>

text \<open>
  A file system in which every year's file has the locations A and B and one row, January,
  with the AQI 40 at A and 120 at B.
\<close>

definition cells_ab :: "string \<Rightarrow> real option" where
  "cells_ab c = (if c = ''A'' then Some 40 else if c = ''B'' then Some 120 else None)"

definition fs_two_locations :: "string \<Rightarrow> data_frame option" where
  "fs_two_locations p = Some \<lparr> header = [''A'', ''B''], body = [(''Jan'', cells_ab)] \<rparr>"

text \<open>The Observation of such a row: January of a year at a location with an AQI value.\<close>

definition january :: "string \<Rightarrow> real \<Rightarrow> int \<Rightarrow> observation" where
  "january l a y = \<lparr> Month = ''Jan'', Year = y, Location = l, AQI = Some a, Date = (y, 1, 1) \<rparr>"

text \<open>The same files, seen from a file system that has no other file.\<close>

definition fs_only_sources :: "string \<Rightarrow> data_frame option" where
  "fs_only_sources p = (if p \<in> set (map file_path years) then fs_two_locations p else None)"

text \<open>
  A file system in which every year's file has one row per calendar month; the file of 2016
  has the locations A and B, the files of the other years have the location A only.
\<close>

definition twelve_months :: "string list" where
  "twelve_months = [''Jan'', ''Feb'', ''Mar'', ''Apr'', ''May'', ''Jun'',
                    ''Jul'', ''Aug'', ''Sep'', ''Oct'', ''Nov'', ''Dec'']"

definition fs_full_years :: "string \<Rightarrow> data_frame option" where
  "fs_full_years p =
     (if p = file_path 2016
      then Some \<lparr> header = [''A'', ''B''], body = map (\<lambda>m. (m, cells_ab)) twelve_months \<rparr>
      else Some \<lparr> header = [''A''], body = map (\<lambda>m. (m, cells_ab)) twelve_months \<rparr>)"



text \<open>Two Observations of January 2016, at the locations A (AQI 40) and B (AQI 120).\<close>

definition df_two_locations :: "observation list" where
  "df_two_locations =
     [\<lparr> Month = ''Jan'', Year = 2016, Location = ''A'', AQI = Some 40, Date = (2016, 1, 1) \<rparr>,
      \<lparr> Month = ''Jan'', Year = 2016, Location = ''B'', AQI = Some 120, Date = (2016, 1, 1) \<rparr>]"

text \<open>One Observation whose AQI value 50.5 lies between two bands.\<close>

definition df_between_bands :: "observation list" where
  "df_between_bands =
     [\<lparr> Month = ''Jan'', Year = 2016, Location = ''A'', AQI = Some (101 / 2), Date = (2016, 1, 1) \<rparr>]"

text \<open>
  The scenario of the specification: location A with AQI 40 in January and 120 in February,
  and a row without a value.
\<close>

definition df_scenario :: "observation list" where
  "df_scenario =
     [\<lparr> Month = ''Jan'', Year = 2016, Location = ''A'', AQI = Some 40, Date = (2016, 1, 1) \<rparr>,
      \<lparr> Month = ''Jan'', Year = 2016, Location = ''B'', AQI = None, Date = (2016, 1, 1) \<rparr>,
      \<lparr> Month = ''Feb'', Year = 2016, Location = ''A'', AQI = Some 120, Date = (2016, 2, 1) \<rparr>]"

section \<open>Properties of the classifier\<close>

subsection \<open>The dictionary of the bands\<close>

lemma getitem_names:
  "getitem aqi_categories ''GOOD'' = Inr (Finite 0, Finite 50)"
  "getitem aqi_categories ''SATISFACTORY'' = Inr (Finite 51, Finite 100)"
  "getitem aqi_categories ''MODERATE'' = Inr (Finite 101, Finite 200)"
  "getitem aqi_categories ''POOR'' = Inr (Finite 201, Finite 300)"
  "getitem aqi_categories ''VERY POOR'' = Inr (Finite 301, Finite 400)"
  "getitem aqi_categories ''SEVERE'' = Inr (Finite 401, Infinity)"
  by (simp_all add: getitem_def aqi_categories_def)

lemma getitem_unknown:
  assumes "k \<notin> set (map fst d)"
  shows "getitem d k = Inl (KeyError k)"
proof -
  from assms have "map_of d k = None"
    by (simp add: map_of_eq_None_iff)
  then show ?thesis
    by (simp add: getitem_def)
qed

lemma category_analysis_Inr:
  "getitem aqi_categories selected = Inr (lo, hi) \<Longrightarrow>
   category_analysis selected df = Inr (filtered_df lo hi df, chart_data (filtered_df lo hi df))"
  by (simp add: category_analysis_def Let_def)

lemma category_analysis_Inl:
  "getitem aqi_categories selected = Inl e \<Longrightarrow> category_analysis selected df = Inl e"
  by (simp add: category_analysis_def)

text \<open>
  Claim C9.  Each of the six names of the enumeration is a key of the dictionary and the
  lookup returns the bounds of that band; for every other name the lookup raises the
  \<^verbatim>\<open>KeyError\<close> of that name (the specification's InvalidCategoryError), and so does the
  classifier: no band is taken by default.
\<close>

theorem lookup_recognized_or_error:
  "(selected \<notin> set (map fst aqi_categories) \<longrightarrow>
        getitem aqi_categories selected = Inl (KeyError selected)
        \<and> category_analysis selected df = Inl (KeyError selected))
   \<and> map fst aqi_categories
       = [''GOOD'', ''SATISFACTORY'', ''MODERATE'', ''POOR'', ''VERY POOR'', ''SEVERE'']
   \<and> getitem aqi_categories ''GOOD'' = Inr (Finite 0, Finite 50)
   \<and> getitem aqi_categories ''SATISFACTORY'' = Inr (Finite 51, Finite 100)
   \<and> getitem aqi_categories ''MODERATE'' = Inr (Finite 101, Finite 200)
   \<and> getitem aqi_categories ''POOR'' = Inr (Finite 201, Finite 300)
   \<and> getitem aqi_categories ''VERY POOR'' = Inr (Finite 301, Finite 400)
   \<and> getitem aqi_categories ''SEVERE'' = Inr (Finite 401, Infinity)"
proof -
  have "map fst aqi_categories
          = [''GOOD'', ''SATISFACTORY'', ''MODERATE'', ''POOR'', ''VERY POOR'', ''SEVERE'']"
    by (simp add: aqi_categories_def)
  moreover have "selected \<notin> set (map fst aqi_categories) \<longrightarrow>
        getitem aqi_categories selected = Inl (KeyError selected)
        \<and> category_analysis selected df = Inl (KeyError selected)"
  proof
    assume "selected \<notin> set (map fst aqi_categories)"
    then have "getitem aqi_categories selected = Inl (KeyError selected)"
      by (rule getitem_unknown)
    then show "getitem aqi_categories selected = Inl (KeyError selected)
        \<and> category_analysis selected df = Inl (KeyError selected)"
      by (simp add: category_analysis_Inl)
  qed
  ultimately show ?thesis
    using getitem_names by (intro conjI) assumption+
qed

theorem lookup_recognized_or_error_witness:
  "''HAZARDOUS'' \<notin> set (map fst aqi_categories)
   \<and> getitem aqi_categories ''HAZARDOUS'' = Inl (KeyError ''HAZARDOUS'')
   \<and> category_analysis ''HAZARDOUS'' df_scenario = Inl (KeyError ''HAZARDOUS'')"
proof -
  have h: "''HAZARDOUS'' \<notin> set (map fst aqi_categories)"
    by (simp add: aqi_categories_def)
  from lookup_recognized_or_error [of "''HAZARDOUS''" df_scenario, THEN conjunct1, THEN mp, OF h] h
  show ?thesis by (intro conjI) (assumption | erule conjunct1 | erule conjunct2)+
qed

subsection \<open>The bands and the values they cover\<close>

lemma distinct_aqi_categories: "distinct aqi_categories"
proof -
  have "distinct (map fst aqi_categories)"
    by (simp add: aqi_categories_def)
  then show ?thesis
    by (rule distinct_map [THEN iffD1, THEN conjunct1])
qed

lemma filter_singleton_ex1:
  assumes "distinct xs" "length (filter P xs) = 1"
  shows "\<exists>!x. x \<in> set xs \<and> P x"
proof -
  from assms(2) obtain y where y: "filter P xs = [y]"
    by (cases "filter P xs") auto
  then have "set (filter P xs) = {y}" by simp
  then have "\<And>x. x \<in> set xs \<and> P x \<longleftrightarrow> x = y" by auto
  then show ?thesis by auto
qed

lemma filter_empty_none:
  assumes "length (filter P xs) = 0"
  shows "\<not> (\<exists>x. x \<in> set xs \<and> P x)"
  using assms by (auto simp: filter_empty_conv)

lemma filter_le1_unique:
  assumes "distinct xs" "length (filter P xs) \<le> 1" "x \<in> set xs" "P x" "y \<in> set xs" "P y"
  shows "x = y"
proof (rule ccontr)
  assume "x \<noteq> y"
  with assms have "distinct [x, y]" "set [x, y] \<subseteq> set (filter P xs)" by auto
  then have "length [x, y] \<le> length (filter P xs)"
    by (metis distinct_card card_mono List.finite_set card_length le_trans)
  with assms(2) show False by simp
qed

text \<open>The values that no band covers: the open intervals between two neighbouring bands.\<close>

lemma count_bands:
  "length (filter (in_band a) aqi_categories) =
     (if a < 0 \<or> 50 < a \<and> a < 51 \<or> 100 < a \<and> a < 101 \<or> 200 < a \<and> a < 201
         \<or> 300 < a \<and> a < 301 \<or> 400 < a \<and> a < 401
      then 0 else 1)"
proof -
  consider "a < 0" | "0 \<le> a" "a \<le> 50" | "50 < a" "a < 51" | "51 \<le> a" "a \<le> 100"
    | "100 < a" "a < 101" | "101 \<le> a" "a \<le> 200" | "200 < a" "a < 201" | "201 \<le> a" "a \<le> 300"
    | "300 < a" "a < 301" | "301 \<le> a" "a \<le> 400" | "400 < a" "a < 401" | "401 \<le> a"
    by linarith
  then show ?thesis
    by cases (simp_all add: aqi_categories_def in_band_def)
qed

lemma whole_number_not_between:
  fixes a :: real
  assumes "a \<in> \<int>" "0 \<le> a"
  shows "\<not> (a < 0 \<or> 50 < a \<and> a < 51 \<or> 100 < a \<and> a < 101 \<or> 200 < a \<and> a < 201
         \<or> 300 < a \<and> a < 301 \<or> 400 < a \<and> a < 401)"
proof -
  from assms obtain k :: int where k: "a = of_int k" "0 \<le> k" by (auto elim!: Ints_cases)
  have "\<not> (k < 0 \<or> 50 < k \<and> k < 51 \<or> 100 < k \<and> k < 101 \<or> 200 < k \<and> k < 201
         \<or> 300 < k \<and> k < 301 \<or> 400 < k \<and> k < 401)"
    using k(2) by linarith
  then show ?thesis
    unfolding k(1) by simp
qed

text \<open>
  Claim C2, as amended.  The bounds of the bands are whole numbers, and a band ends one unit
  before the next begins.  Every AQI value that is a non-negative whole number falls within
  exactly one band, and no value at all falls within two; but the values strictly between
  50 and 51, 100 and 101, 200 and 201, 300 and 301, 400 and 401 fall within no band, and
  they are the only non-negative values that do.
\<close>

theorem bands_cover_whole_numbers_once:
  "(a \<in> \<int> \<and> 0 \<le> a \<longrightarrow> (\<exists>!b. b \<in> set aqi_categories \<and> in_band a b))
   \<and> (\<forall>b b'. b \<in> set aqi_categories \<and> in_band a b \<and> b' \<in> set aqi_categories \<and> in_band a b'
         \<longrightarrow> b = b')
   \<and> (0 \<le> a \<longrightarrow>
        ((\<exists>b. b \<in> set aqi_categories \<and> in_band a b) \<longleftrightarrow>
         \<not> (50 < a \<and> a < 51 \<or> 100 < a \<and> a < 101 \<or> 200 < a \<and> a < 201
            \<or> 300 < a \<and> a < 301 \<or> 400 < a \<and> a < 401)))"
proof (intro conjI impI allI)
  assume "a \<in> \<int> \<and> 0 \<le> a"
  then have "length (filter (in_band a) aqi_categories) = 1"
    using whole_number_not_between [of a] by (simp only: count_bands if_False)
  with distinct_aqi_categories show "\<exists>!b. b \<in> set aqi_categories \<and> in_band a b"
    by (rule filter_singleton_ex1)
next
  fix b b'
  assume *: "b \<in> set aqi_categories \<and> in_band a b \<and> b' \<in> set aqi_categories \<and> in_band a b'"
  have "length (filter (in_band a) aqi_categories) \<le> 1"
    by (simp only: count_bands split: if_split) simp
  with distinct_aqi_categories show "b = b'"
    using * by (blast intro: filter_le1_unique)
next
  assume a: "0 \<le> a"
  show "(\<exists>b. b \<in> set aqi_categories \<and> in_band a b) \<longleftrightarrow>
         \<not> (50 < a \<and> a < 51 \<or> 100 < a \<and> a < 101 \<or> 200 < a \<and> a < 201
            \<or> 300 < a \<and> a < 301 \<or> 400 < a \<and> a < 401)"
  proof (cases "50 < a \<and> a < 51 \<or> 100 < a \<and> a < 101 \<or> 200 < a \<and> a < 201
            \<or> 300 < a \<and> a < 301 \<or> 400 < a \<and> a < 401")
    case True
    then have "length (filter (in_band a) aqi_categories) = 0"
      by (simp only: count_bands) simp
    then have "\<not> (\<exists>b. b \<in> set aqi_categories \<and> in_band a b)"
      by (rule filter_empty_none)
    with True show ?thesis by simp
  next
    case False
    with a have "length (filter (in_band a) aqi_categories) = 1"
      by (simp only: count_bands) simp
    with distinct_aqi_categories have "\<exists>!b. b \<in> set aqi_categories \<and> in_band a b"
      by (rule filter_singleton_ex1)
    with False show ?thesis by blast
  qed
qed

theorem bands_cover_whole_numbers_once_witness:
  "(75::real) \<in> \<int> \<and> (0::real) \<le> 75
   \<and> (\<exists>!b. b \<in> set aqi_categories \<and> in_band 75 b)
   \<and> (''SATISFACTORY'', Finite 51, Finite 100) \<in> set aqi_categories
   \<and> in_band 75 (''SATISFACTORY'', Finite 51, Finite 100)"
proof -
  have h: "(75::real) \<in> \<int> \<and> (0::real) \<le> 75" by simp
  have m: "(''SATISFACTORY'', Finite 51, Finite 100) \<in> set aqi_categories
   \<and> in_band 75 (''SATISFACTORY'', Finite 51, Finite 100)"
    by (simp add: aqi_categories_def in_band_def)
  from bands_cover_whole_numbers_once [of 75, THEN conjunct1, THEN mp, OF h] h m
  show ?thesis by (intro conjI) (assumption | erule conjunct1 | erule conjunct2)+
qed

text \<open>
  The claim C2 as stated fails at the AQI value 50.5: it is present and non-negative, no band
  covers it, and the classifier's filtered list is empty under each of the six names.
\<close>

theorem value_between_bands_counterexample:
  "(0::real) \<le> 101 / 2
   \<and> filter (in_band (101 / 2)) aqi_categories = []
   \<and> map (\<lambda>selected. map_sum id fst (category_analysis selected df_between_bands))
         (map fst aqi_categories)
       = [Inr [], Inr [], Inr [], Inr [], Inr [], Inr []]"
  by (simp add: aqi_categories_def in_band_def category_analysis_def getitem_def
        filtered_df_def df_between_bands_def)

subsection \<open>The filtered list\<close>

lemma mask_filter:
  "map fst (filter snd (zip xs (map2 (\<and>) (map p xs) (map q xs)))) = filter (\<lambda>x. p x \<and> q x) xs"
  by (induction xs) auto

lemma filtered_df_filter: "filtered_df lo hi df = filter (present_in_range lo hi) df"
proof -
  have "(\<lambda>x. ge (AQI x) lo \<and> le (AQI x) hi) = present_in_range lo hi"
    by (rule ext) (auto simp: present_in_range_def split: option.splits number.splits)
  then show ?thesis
    unfolding filtered_df_def Let_def map_map mask_filter by (simp add: comp_def)
qed

lemma sorted_map_filter: "sorted (map f xs) \<Longrightarrow> sorted (map f (filter P xs))"
  by (induction xs) auto

text \<open>
  Claim C3.  For the bounds of a recognized band the classifier's filtered list is the
  collection restricted to the Observations whose AQI value is present and lies between the
  bounds, both inclusive: the same Observations, as often, in the same order.  So it is a
  subsequence of the collection, it holds no Observation without a value, and it ascends by
  date when the collection does.
\<close>

theorem filtered_list_exact:
  assumes "getitem aqi_categories selected = Inr (lower_bound, upper_bound)"
  shows "category_analysis selected df
           = Inr (filtered_df lower_bound upper_bound df,
                  chart_data (filtered_df lower_bound upper_bound df))
         \<and> filtered_df lower_bound upper_bound df
             = filter (present_in_range lower_bound upper_bound) df
         \<and> subseq (filtered_df lower_bound upper_bound df) df
         \<and> (\<forall>r. r \<in> set (filtered_df lower_bound upper_bound df) \<longleftrightarrow>
                r \<in> set df \<and> (\<exists>a. AQI r = Some a \<and> ge (Some a) lower_bound \<and> le (Some a) upper_bound))
         \<and> (\<forall>r \<in> set df. AQI r = None \<longrightarrow> r \<notin> set (filtered_df lower_bound upper_bound df))
         \<and> (sorted (map Date df) \<longrightarrow> sorted (map Date (filtered_df lower_bound upper_bound df)))"
proof (intro conjI)
  show "category_analysis selected df
           = Inr (filtered_df lower_bound upper_bound df,
                  chart_data (filtered_df lower_bound upper_bound df))"
    using assms by (rule category_analysis_Inr)
  show "filtered_df lower_bound upper_bound df = filter (present_in_range lower_bound upper_bound) df"
    by (rule filtered_df_filter)
  show "subseq (filtered_df lower_bound upper_bound df) df"
    by (simp add: filtered_df_filter)
  show "\<forall>r. r \<in> set (filtered_df lower_bound upper_bound df) \<longleftrightarrow>
                r \<in> set df \<and> (\<exists>a. AQI r = Some a \<and> ge (Some a) lower_bound \<and> le (Some a) upper_bound)"
    by (auto simp: filtered_df_filter present_in_range_def split: option.splits number.splits)
  show "\<forall>r \<in> set df. AQI r = None \<longrightarrow> r \<notin> set (filtered_df lower_bound upper_bound df)"
    by (simp add: filtered_df_filter present_in_range_def)
  show "sorted (map Date df) \<longrightarrow> sorted (map Date (filtered_df lower_bound upper_bound df))"
    by (simp add: filtered_df_filter sorted_map_filter)
qed

theorem filtered_list_exact_witness:
  "getitem aqi_categories ''GOOD'' = Inr (Finite 0, Finite 50)
   \<and> sorted (map Date df_scenario)
   \<and> filtered_df (Finite 0) (Finite 50) df_scenario
       = [\<lparr> Month = ''Jan'', Year = 2016, Location = ''A'', AQI = Some 40, Date = (2016, 1, 1) \<rparr>]
   \<and> sorted (map Date (filtered_df (Finite 0) (Finite 50) df_scenario))"
proof -
  have h: "getitem aqi_categories ''GOOD'' = Inr (Finite 0, Finite 50)"
    by (rule getitem_names)
  have s: "sorted (map Date df_scenario)"
    by (simp add: df_scenario_def)
  note t = filtered_list_exact [OF h, of df_scenario]
  have "filter (present_in_range (Finite 0) (Finite 50)) df_scenario
       = [\<lparr> Month = ''Jan'', Year = 2016, Location = ''A'', AQI = Some 40, Date = (2016, 1, 1) \<rparr>]"
    by (simp add: df_scenario_def present_in_range_def)
  with t h s show ?thesis by simp
qed

subsection \<open>The counting table\<close>

lemma map_of_tabulate:
  "map_of (map (\<lambda>k. (k, g k)) ks) k = (if k \<in> set ks then Some (g k) else None)"
  by (induction ks) auto

lemma set_index_chart_data: "set (index (chart_data f)) = Location ` set f"
  by (auto simp: chart_data_def unstack_def groupby_size_def comp_def image_iff)

lemma set_cols_chart_data: "set (cols (chart_data f)) = Year ` set f"
  by (auto simp: chart_data_def unstack_def groupby_size_def comp_def image_iff)

lemma cell_chart_data:
  "cell (chart_data f) l y = length (filter (\<lambda>r. Location r = l \<and> Year r = y) f)"
proof -
  have "(l, y) \<notin> (\<lambda>r. (Location r, Year r)) ` set f \<Longrightarrow> filter (\<lambda>r. Location r = l \<and> Year r = y) f = []"
    by (auto simp: filter_empty_conv)
  then show ?thesis
    by (auto simp: chart_data_def unstack_def groupby_size_def map_of_tabulate)
qed

lemma entry_chart_data:
  "entry (chart_data f) l y =
     (if l \<in> Location ` set f \<and> y \<in> Year ` set f
      then Some (length (filter (\<lambda>r. Location r = l \<and> Year r = y) f)) else None)"
  by (simp add: entry_def set_index_chart_data set_cols_chart_data cell_chart_data)

text \<open>
  Claim C1, as amended.  The counting table is built from the filtered list alone.  It has an
  entry for a Location and a Year exactly when each of them occurs in the filtered list (not
  necessarily together); the entry is the number of filtered Observations of that Location
  and Year, zero when the pair itself does not occur.  A Location or a Year without an
  Observation in the selected band has no row or column.
\<close>

theorem counting_table_entries:
  assumes "category_analysis selected df = Inr (filtered, table)"
  shows "entry table l y =
           (if l \<in> Location ` set filtered \<and> y \<in> Year ` set filtered
            then Some (length (filter (\<lambda>r. Location r = l \<and> Year r = y) filtered))
            else None)
         \<and> set (index table) = Location ` set filtered
         \<and> set (cols table) = Year ` set filtered
         \<and> ((l, y) \<notin> (\<lambda>r. (Location r, Year r)) ` set filtered \<longrightarrow>
              l \<in> Location ` set filtered \<longrightarrow> y \<in> Year ` set filtered \<longrightarrow> entry table l y = Some 0)"
proof -
  from assms have t: "table = chart_data filtered"
    by (auto simp: category_analysis_def Let_def split: sum.splits prod.splits)
  have "(l, y) \<notin> (\<lambda>r. (Location r, Year r)) ` set filtered \<Longrightarrow>
        filter (\<lambda>r. Location r = l \<and> Year r = y) filtered = []"
    by (auto simp: filter_empty_conv)
  then show ?thesis
    unfolding t by (simp add: entry_chart_data set_index_chart_data set_cols_chart_data)
qed

theorem counting_table_entries_witness:
  "category_analysis ''GOOD'' df_two_locations
     = Inr (filtered_df (Finite 0) (Finite 50) df_two_locations,
            chart_data (filtered_df (Finite 0) (Finite 50) df_two_locations))
   \<and> entry (chart_data (filtered_df (Finite 0) (Finite 50) df_two_locations)) ''A'' 2016 = Some 1"
proof -
  have h: "category_analysis ''GOOD'' df_two_locations
     = Inr (filtered_df (Finite 0) (Finite 50) df_two_locations,
            chart_data (filtered_df (Finite 0) (Finite 50) df_two_locations))"
    by (simp add: category_analysis_Inr getitem_names)
  have f: "filtered_df (Finite 0) (Finite 50) df_two_locations
     = [\<lparr> Month = ''Jan'', Year = 2016, Location = ''A'', AQI = Some 40, Date = (2016, 1, 1) \<rparr>]"
    by (simp add: filtered_df_def df_two_locations_def)
  from counting_table_entries [OF h, of "''A''" 2016, THEN conjunct1]
  have "entry (chart_data (filtered_df (Finite 0) (Finite 50) df_two_locations)) ''A'' 2016 = Some 1"
    by (simp add: f)
  with h show ?thesis by (rule conjI)
qed

section \<open>Properties of the loader\<close>

subsection \<open>Years, paths and texts\<close>

lemma str_int_years:
  "str_int 2016 = ''2016''" "str_int 2017 = ''2017''" "str_int 2018 = ''2018''" "str_int 2019 = ''2019''"
  "str_int 2020 = ''2020''" "str_int 2021 = ''2021''" "str_int 2022 = ''2022''" "str_int 2023 = ''2023''"
  by (simp_all add: str_int_def str_nat.simps digit_char_def digits_def)

lemma years_list: "years = [2016, 2017, 2018, 2019, 2020, 2021, 2022, 2023]"
  unfolding years_def by (simp add: upto.simps)

lemma set_years:
  "y \<in> set years \<longleftrightarrow>
     y = 2016 \<or> y = 2017 \<or> y = 2018 \<or> y = 2019 \<or> y = 2020 \<or> y = 2021 \<or> y = 2022 \<or> y = 2023"
  by (simp add: years_list)

lemma distinct_years: "distinct years"
  unfolding years_def by (rule distinct_upto)

lemma strptime_Yb_date_text:
  assumes "y \<in> set years"
  shows "strptime_Yb (str_int y @ ''-'' @ m) = map_option (\<lambda>k. (y, k, 1)) (strptime_b m)"
  using assms unfolding set_years
  by (elim disjE)
     (simp_all add: str_int_years strptime_Yb_def is_digit_def digit_val_def digits_def
        split: option.splits)






subsection \<open>The loop over the years\<close>

lemma read_years_ok:
  "\<forall>y\<in>set ys. fs (file_path y) \<noteq> None \<Longrightarrow>
   read_years fs ys = Inr (map (\<lambda>y. (y, the (fs (file_path y)))) ys)"
  by (induction ys) auto

lemma read_years_present:
  "read_years fs ys = Inr dfs \<Longrightarrow> \<forall>y\<in>set ys. fs (file_path y) \<noteq> None"
  by (induction ys arbitrary: dfs) (auto split: option.splits sum.splits)

lemma read_years_Inr:
  "read_years fs ys = Inr dfs \<longleftrightarrow>
     (\<forall>y\<in>set ys. fs (file_path y) \<noteq> None) \<and> dfs = map (\<lambda>y. (y, the (fs (file_path y)))) ys"
  using read_years_ok [of ys fs] read_years_present [of fs ys dfs] by auto

lemma read_years_cong:
  "\<forall>y\<in>set ys. fs (file_path y) = fs' (file_path y) \<Longrightarrow> read_years fs ys = read_years fs' ys"
  by (induction ys) (auto split: option.splits sum.splits)

lemma sources_present:
  "\<forall>y\<in>set ys. fs (file_path y) \<noteq> None \<Longrightarrow>
   concat (map (\<lambda>y. case fs (file_path y) of None \<Rightarrow> [] | Some df \<Rightarrow> [(y, df)]) ys)
     = map (\<lambda>y. (y, the (fs (file_path y)))) ys"
  by (induction ys) auto

lemma set_sources:
  "(y, df) \<in> set (sources fs) \<longleftrightarrow> y \<in> set years \<and> fs (file_path y) = Some df"
  by (auto simp: sources_def split: option.splits)

subsection \<open>Parsing a column of texts\<close>

lemma to_datetime_ok:
  "\<forall>s\<in>set ss. strptime_Yb s \<noteq> None \<Longrightarrow>
   to_datetime ss = Inr (map (\<lambda>s. the (strptime_Yb s)) ss)"
  by (induction ss) auto

lemma to_datetime_parsed:
  "to_datetime ss = Inr ds \<Longrightarrow> \<forall>s\<in>set ss. strptime_Yb s \<noteq> None"
  by (induction ss arbitrary: ds) (auto split: option.splits sum.splits)


subsection \<open>The wide and the long frame\<close>

lemma Year_id_var: "''Year'' \<in> set id_vars"
  by (simp add: id_vars_def)

lemma set_first_seen: "set (first_seen xs) = set xs"
  by (simp add: first_seen_def)

lemma distinct_first_seen: "distinct (first_seen xs)"
  by (simp add: first_seen_def)

lemma set_with_Year: "set (with_Year h) = insert ''Year'' (set h)"
  by (auto simp: with_Year_def)

lemma set_value_vars:
  "l \<in> set (value_vars (combined_df dfs)) \<longleftrightarrow>
     l \<notin> set id_vars \<and> (\<exists>yd\<in>set dfs. l \<in> set (header (snd yd)))"
  using Year_id_var
  by (auto simp: value_vars_def combined_df_def pd_concat_def set_first_seen set_with_Year)

lemma distinct_value_vars: "distinct (value_vars (combined_df dfs))"
  by (simp add: value_vars_def combined_df_def pd_concat_def distinct_first_seen)

lemma rows_combined_df: "rows (combined_df dfs) = concat (map frame_rows dfs)"
  by (simp add: combined_df_def pd_concat_def)

lemma year_frame_rows: "r \<in> set (frame_rows yd) \<Longrightarrow> fst (snd r) = fst yd"
  by (auto simp: frame_rows_def)

lemma year_melt:
  assumes "r \<in> set (melt (combined_df dfs))"
  shows "fst (snd r) \<in> fst ` set dfs"
proof -
  from assms obtain w where "w \<in> set (rows (combined_df dfs))" "fst (snd r) = fst (snd w)"
    by (auto simp: melt_def)
  then show ?thesis
    by (auto simp: rows_combined_df dest: year_frame_rows)
qed

lemma concat_map_single:
  assumes "distinct xs" "x \<in> set xs" "\<And>y. y \<in> set xs \<Longrightarrow> y \<noteq> x \<Longrightarrow> g y = []"
  shows "concat (map g xs) = g x"
  using assms
proof (induction xs)
  case Nil
  then show ?case by simp
next
  case (Cons a xs)
  show ?case
  proof (cases "a = x")
    case True
    with Cons.prems have "\<forall>y\<in>set xs. g y = []" by auto
    then have "concat (map g xs) = []" by simp
    with True show ?thesis by simp
  next
    case False
    with Cons.prems have "g a = []" "x \<in> set xs" "distinct xs" by auto
    with Cons show ?thesis by simp
  qed
qed

lemma filter_melt:
  assumes "l \<in> set (value_vars f)" "distinct (value_vars f)"
  shows "filter (\<lambda>r. fst (snd r) = y \<and> fst (snd (snd r)) = l) (melt f)
           = map (\<lambda>w. (fst w, fst (snd w), l, snd (snd w) l)) (filter (\<lambda>w. fst (snd w) = y) (rows f))"
proof -
  let ?P = "\<lambda>r::long_row. fst (snd r) = y \<and> fst (snd (snd r)) = l"
  let ?g = "\<lambda>col. filter ?P (map (\<lambda>(m, y, c). (m, y, col, c col)) (rows f))"
  have "filter ?P (melt f) = concat (map ?g (value_vars f))"
    by (simp add: melt_def filter_concat comp_def)
  also have "\<dots> = ?g l"
    using assms(2,1)
  proof (rule concat_map_single)
    fix col assume "col \<noteq> l"
    then show "?g col = []"
      by (auto simp: filter_empty_conv)
  qed
  also have "\<dots> = map (\<lambda>w. (fst w, fst (snd w), l, snd (snd w) l)) (filter (\<lambda>w. fst (snd w) = y) (rows f))"
    by (simp add: filter_map comp_def split_beta)
  finally show ?thesis .
qed

lemma filter_frame_rows:
  assumes "distinct (map fst dfs)" "(y, df) \<in> set dfs"
  shows "filter (\<lambda>w. fst (snd w) = y) (concat (map frame_rows dfs)) = frame_rows (y, df)"
proof -
  let ?g = "\<lambda>yd. filter (\<lambda>w::wide_row. fst (snd w) = y) (frame_rows yd)"
  from assms(1) have d: "distinct dfs"
    by (rule distinct_map [THEN iffD1, THEN conjunct1])
  have "filter (\<lambda>w. fst (snd w) = y) (concat (map frame_rows dfs)) = concat (map ?g dfs)"
    by (simp add: filter_concat comp_def)
  also have "\<dots> = ?g (y, df)"
    using d assms(2)
  proof (rule concat_map_single)
    fix yd assume yd: "yd \<in> set dfs" "yd \<noteq> (y, df)"
    have "fst yd \<noteq> y"
    proof
      assume "fst yd = y"
      with yd(1) assms have "snd yd = df"
        by (metis eq_key_imp_eq_value prod.collapse)
      with \<open>fst yd = y\<close> yd(2) show False by (cases yd) simp
    qed
    then show "?g yd = []"
      by (auto simp: filter_empty_conv dest: year_frame_rows)
  qed
  also have "\<dots> = frame_rows (y, df)"
    by (auto simp: filter_id_conv dest: year_frame_rows)
  finally show ?thesis .
qed

lemma map_fst_present:
  "map fst (concat (map (\<lambda>y. case fs (file_path y) of None \<Rightarrow> [] | Some df \<Rightarrow> [(y, df)]) ys))
     = filter (\<lambda>y. fs (file_path y) \<noteq> None) ys"
  by (induction ys) (auto split: option.splits)

lemma distinct_map_fst_sources: "distinct (map fst (sources fs))"
  unfolding sources_def map_fst_present by (simp add: distinct_years)

lemma map2_same: "map2 g xs (map f xs) = map (\<lambda>x. g x (f x)) xs"
  by (induction xs) auto

lemma year_sources: "r \<in> set (melt (combined_df (sources fs))) \<Longrightarrow> fst (snd r) \<in> set years"
  using year_melt [of r "sources fs"] by (auto simp: set_sources)

lemma strptime_Yb_row:
  assumes "r \<in> set (melt (combined_df (sources fs)))"
  shows "strptime_Yb (date_text r) = map_option (\<lambda>k. (fst (snd r), k, 1)) (strptime_b (fst r))"
  using strptime_Yb_date_text [OF year_sources [OF assms], of "fst r"]
  by (simp add: date_text_def split_beta)

lemma set_Date_row:
  assumes "r \<in> set (melt (combined_df (sources fs)))" "strptime_b (fst r) \<noteq> None"
  shows "set_Date r (the (strptime_Yb (date_text r))) = observation_of r"
  using assms(2) unfolding strptime_Yb_row [OF assms(1)]
  by (auto simp: set_Date_def observation_of_def month_number_def split_beta)

lemma parsed_iff:
  assumes "r \<in> set (melt (combined_df (sources fs)))"
  shows "strptime_Yb (date_text r) = None \<longleftrightarrow> strptime_b (fst r) = None"
  unfolding strptime_Yb_row [OF assms] by simp

lemma parsed_all:
  assumes "set xs \<subseteq> set (melt (combined_df (sources fs)))"
  shows "(\<forall>r\<in>set xs. strptime_Yb (date_text r) \<noteq> None) \<longleftrightarrow> (\<forall>r\<in>set xs. strptime_b (fst r) \<noteq> None)"
  using assms parsed_iff [of _ fs] by blast

lemma melted_dated_ok:
  assumes "\<forall>y\<in>set years. fs (file_path y) \<noteq> None"
    and "\<forall>r\<in>set (melt (combined_df (sources fs))). strptime_b (fst r) \<noteq> None"
  shows "melted_dated fs = Inr (map observation_of (melt (combined_df (sources fs))))"
proof -
  let ?M = "melt (combined_df (sources fs))"
  from assms(1) have r: "read_years fs years = Inr (sources fs)"
    by (simp add: read_years_Inr sources_def sources_present)
  from assms(2) have "\<forall>r\<in>set ?M. strptime_Yb (date_text r) \<noteq> None"
    using parsed_all [of ?M fs] by blast
  then have "\<forall>s\<in>set (map date_text ?M). strptime_Yb s \<noteq> None"
    by (simp only: set_map ball_simps)
  then have t: "to_datetime (map date_text ?M) = Inr (map (\<lambda>s. the (strptime_Yb s)) (map date_text ?M))"
    by (rule to_datetime_ok)
  have "map2 set_Date ?M (map (\<lambda>r. the (strptime_Yb (date_text r))) ?M) = map observation_of ?M"
    unfolding map2_same using assms(2) by (auto simp: set_Date_row)
  with r t show ?thesis
    by (simp add: melted_dated_def Let_def comp_def)
qed

lemma melted_dated_Inr:
  "melted_dated fs = Inr u \<longleftrightarrow>
     (\<forall>y\<in>set years. fs (file_path y) \<noteq> None)
     \<and> (\<forall>r\<in>set (melt (combined_df (sources fs))). strptime_b (fst r) \<noteq> None)
     \<and> u = map observation_of (melt (combined_df (sources fs)))"
proof
  assume u: "melted_dated fs = Inr u"
  then obtain dfs where dfs: "read_years fs years = Inr dfs"
    by (auto simp: melted_dated_def split: sum.splits)
  then have p: "\<forall>y\<in>set years. fs (file_path y) \<noteq> None" and s: "dfs = sources fs"
    by (auto simp: read_years_Inr sources_def sources_present)
  from u dfs s obtain dates where "to_datetime (map date_text (melt (combined_df (sources fs)))) = Inr dates"
    by (auto simp: melted_dated_def Let_def split: sum.splits)
  then have "\<forall>s\<in>set (map date_text (melt (combined_df (sources fs)))). strptime_Yb s \<noteq> None"
    by (rule to_datetime_parsed)
  then have "\<forall>r\<in>set (melt (combined_df (sources fs))). strptime_Yb (date_text r) \<noteq> None"
    by (simp only: set_map ball_simps)
  then have q: "\<forall>r\<in>set (melt (combined_df (sources fs))). strptime_b (fst r) \<noteq> None"
    using parsed_all [of "melt (combined_df (sources fs))" fs] by blast
  from melted_dated_ok [OF p q] u p q
  show "(\<forall>y\<in>set years. fs (file_path y) \<noteq> None)
     \<and> (\<forall>r\<in>set (melt (combined_df (sources fs))). strptime_b (fst r) \<noteq> None)
     \<and> u = map observation_of (melt (combined_df (sources fs)))"
    by simp
next
  assume "(\<forall>y\<in>set years. fs (file_path y) \<noteq> None)
     \<and> (\<forall>r\<in>set (melt (combined_df (sources fs))). strptime_b (fst r) \<noteq> None)
     \<and> u = map observation_of (melt (combined_df (sources fs)))"
  then show "melted_dated fs = Inr u"
    by (simp add: melted_dated_ok)
qed


lemma load_data_melted_dated:
  "load_data argsort fs =
     (case melted_dated fs of Inl e \<Rightarrow> Inl e | Inr u \<Rightarrow> Inr (sort_values argsort u))"
  by (simp add: load_data_def melted_dated_def Let_def split: sum.splits)

subsection \<open>The sort\<close>


lemma mset_sort_values:
  assumes "argsort_contract argsort"
  shows "mset (sort_values argsort df) = mset df"
proof -
  from assms have "mset (argsort (map Date df)) = mset [0..<length df]"
    by (simp add: argsort_contract_def)
  then have "mset (map (\<lambda>i. df ! i) (argsort (map Date df))) = mset (map (\<lambda>i. df ! i) [0..<length df])"
    by (metis mset_map)
  then show ?thesis
    by (simp add: sort_values_def map_nth)
qed



lemma filter_sort_values:
  assumes "argsort_contract argsort"
  shows "mset (filter P (sort_values argsort df)) = mset (filter P df)"
  using mset_sort_values [OF assms, of df] by (metis mset_filter)

lemma length_filter_sort_values:
  assumes "argsort_contract argsort"
  shows "length (filter P (sort_values argsort df)) = length (filter P df)"
  using filter_sort_values [OF assms, of P df] by (metis size_mset)






lemma argsort_stable_contract: "argsort_contract argsort_stable"
  by (simp add: argsort_contract_def argsort_stable_def)


subsection \<open>Success of the loader\<close>

lemma month_melt:
  assumes "r \<in> set (melt (combined_df dfs))"
  shows "\<exists>yd\<in>set dfs. fst r \<in> fst ` set (body (snd yd))"
proof -
  from assms obtain w where w: "w \<in> set (rows (combined_df dfs))" "fst r = fst w"
    by (auto simp: melt_def)
  then obtain yd where "yd \<in> set dfs" "w \<in> set (frame_rows yd)"
    by (auto simp: rows_combined_df)
  with w(2) show ?thesis
    by (force simp: frame_rows_def)
qed

lemma load_data_ok:
  assumes "\<forall>y\<in>set years. fs (file_path y) \<noteq> None"
    and "\<forall>y\<in>set years. \<forall>r\<in>set (body (the (fs (file_path y)))). strptime_b (fst r) \<noteq> None"
  shows "load_data argsort fs
           = Inr (sort_values argsort (map observation_of (melt (combined_df (sources fs)))))"
proof -
  have "\<forall>r\<in>set (melt (combined_df (sources fs))). strptime_b (fst r) \<noteq> None"
  proof
    fix r assume "r \<in> set (melt (combined_df (sources fs)))"
    from month_melt [OF this] obtain yd where
      yd: "yd \<in> set (sources fs)" "fst r \<in> fst ` set (body (snd yd))"
      by blast
    from yd(1) have "fst yd \<in> set years" "fs (file_path (fst yd)) = Some (snd yd)"
      using set_sources [of "fst yd" "snd yd" fs] by simp_all
    with assms(2) yd(2) show "strptime_b (fst r) \<noteq> None"
      by force
  qed
  with assms(1) show ?thesis
    by (simp add: load_data_melted_dated melted_dated_ok)
qed

lemma load_data_Inr:
  assumes "load_data argsort fs = Inr df"
  shows "melted_dated fs = Inr (map observation_of (melt (combined_df (sources fs))))
         \<and> df = sort_values argsort (map observation_of (melt (combined_df (sources fs))))"
proof -
  from assms obtain u where u: "melted_dated fs = Inr u" "df = sort_values argsort u"
    by (auto simp: load_data_melted_dated split: sum.splits)
  from u(1) have "u = map observation_of (melt (combined_df (sources fs)))"
    by (simp add: melted_dated_Inr)
  with u show ?thesis by simp
qed


subsection \<open>The sample file systems\<close>

lemma strptime_b_samples:
  "strptime_b ''Jan'' = Some 1" "strptime_b ''Feb'' = Some 2" "strptime_b ''Mar'' = Some 3"
  "strptime_b ''Apr'' = Some 4" "strptime_b ''May'' = Some 5" "strptime_b ''Jun'' = Some 6"
  "strptime_b ''Jul'' = Some 7" "strptime_b ''Aug'' = Some 8" "strptime_b ''Sep'' = Some 9"
  "strptime_b ''Oct'' = Some 10" "strptime_b ''Nov'' = Some 11" "strptime_b ''Dec'' = Some 12"
  "strptime_b ''Jann'' = None" "strptime_b ''jan'' = Some 1"
  by (simp_all add: strptime_b_def month_abbr_def lower_def ascii_uppercase_def ascii_lowercase_def)

lemmas loader_defs =
  load_data_def years_list combined_df_def pd_concat_def frame_rows_def with_Year_def
  first_seen_def melt_def value_vars_def id_vars_def date_text_def str_int_years
  strptime_Yb_def is_digit_def digit_val_def digits_def strptime_b_samples set_Date_def
  sort_values_def cells_ab_def upt_rec melted_dated_def


subsection \<open>Order\<close>



subsection \<open>Dates\<close>



subsection \<open>Dependence on the sources only\<close>

text \<open>
  Claim C7.  The loader is a function of the frames read from the files of the years 2016 to
  2023, in that order: two runs that find the same sources return the same result, which is
  the same collection (the same Observations in the same order) or the same exception, however
  the file systems differ elsewhere.  The loader writes nothing, so a second run finds the
  sources of the first.
\<close>

theorem loader_same_sources_same_result:
  assumes "map (\<lambda>year. fs (file_path year)) years = map (\<lambda>year. fs' (file_path year)) years"
  shows "load_data argsort fs = load_data argsort fs'"
proof -
  from assms have "\<forall>y\<in>set years. fs (file_path y) = fs' (file_path y)"
    by (simp only: map_eq_conv)
  then have "read_years fs years = read_years fs' years"
    by (rule read_years_cong)
  then show ?thesis
    by (simp add: load_data_def)
qed

theorem loader_same_sources_same_result_witness:
  "map (\<lambda>year. fs_two_locations (file_path year)) years
     = map (\<lambda>year. fs_only_sources (file_path year)) years
   \<and> fs_two_locations ''elsewhere.csv'' \<noteq> fs_only_sources ''elsewhere.csv''
   \<and> load_data argsort_stable fs_two_locations = load_data argsort_stable fs_only_sources"
proof -
  have h: "map (\<lambda>year. fs_two_locations (file_path year)) years
     = map (\<lambda>year. fs_only_sources (file_path year)) years"
    by (simp add: fs_only_sources_def)
  have "fs_two_locations ''elsewhere.csv'' \<noteq> fs_only_sources ''elsewhere.csv''"
    by (simp add: fs_only_sources_def fs_two_locations_def years_list file_path_def str_int_years)
  with h loader_same_sources_same_result [OF h, of argsort_stable] show ?thesis
    by blast
qed

subsection \<open>Rows of equal date\<close>




subsection \<open>Unrecognized month values\<close>



lemma mem_value_vars_sources:
  assumes "y \<in> set years" "fs (file_path y) = Some df" "l \<in> set (header df)" "l \<notin> set id_vars"
  shows "l \<in> set (value_vars (combined_df (sources fs)))"
proof -
  from assms(1,2) have "(y, df) \<in> set (sources fs)"
    by (simp add: set_sources)
  with assms(3,4) show ?thesis
    unfolding set_value_vars by force
qed




subsection \<open>Completeness\<close>

lemma observations_of_year_location:
  assumes "melted_dated fs = Inr u" and "y \<in> set years" and "fs (file_path y) = Some df"
    and "l \<in> set (value_vars (combined_df (sources fs)))"
  shows "filter (\<lambda>r. Year r = y \<and> Location r = l) u
           = map (\<lambda>w. \<lparr> Month = fst w, Year = y, Location = l,
                        AQI = (if l \<in> set (header df) then snd w l else None),
                        Date = (y, month_number (fst w), 1) \<rparr>) (body df)"
proof -
  let ?f = "combined_df (sources fs)"
  from assms(1) have u: "u = map observation_of (melt ?f)"
    by (simp add: melted_dated_Inr)
  from assms(2,3) have src: "(y, df) \<in> set (sources fs)"
    by (simp add: set_sources)
  have "filter (\<lambda>r. Year r = y \<and> Location r = l) u
          = map observation_of (filter (\<lambda>r. fst (snd r) = y \<and> fst (snd (snd r)) = l) (melt ?f))"
    unfolding u by (simp add: filter_map comp_def observation_of_def split_beta)
  also have "filter (\<lambda>r. fst (snd r) = y \<and> fst (snd (snd r)) = l) (melt ?f)
          = map (\<lambda>w. (fst w, fst (snd w), l, snd (snd w) l)) (filter (\<lambda>w. fst (snd w) = y) (rows ?f))"
    using assms(4) distinct_value_vars by (rule filter_melt)
  also have "filter (\<lambda>w. fst (snd w) = y) (rows ?f) = frame_rows (y, df)"
    unfolding rows_combined_df using distinct_map_fst_sources src by (rule filter_frame_rows)
  finally show ?thesis
    by (simp add: frame_rows_def observation_of_def comp_def split_beta)
qed

lemma one_row_per_month_length: "one_row_per_month df \<Longrightarrow> length (body df) = 12"
proof -
  assume "one_row_per_month df"
  then have "size (mset (map (\<lambda>r. strptime_b (fst r)) (body df))) = size (mset (map Some [1..<13]))"
    by (simp only: one_row_per_month_def)
  then show ?thesis by simp
qed

lemma one_row_per_month_once:
  assumes "one_row_per_month df" "1 \<le> k" "k \<le> 12"
  shows "length (filter (\<lambda>w. month_number (fst w) = k) (body df)) = 1"
proof -
  have "(\<lambda>w::csv_row. month_number (fst w) = k) = (\<lambda>w. strptime_b (fst w) = Some k)"
    using assms(2) by (auto simp: month_number_def fun_eq_iff split: option.splits)
  then have "length (filter (\<lambda>w. month_number (fst w) = k) (body df))
               = length (filter (\<lambda>x. x = Some k) (map (\<lambda>r. strptime_b (fst r)) (body df)))"
    by (simp add: filter_map comp_def)
  also have "\<dots> = count (mset (map (\<lambda>r. strptime_b (fst r)) (body df))) (Some k)"
    by (simp only: count_mset count_list_eq_length_filter) (metis)
  also have "\<dots> = count (mset (map Some [1..<13])) (Some k)"
    using assms(1) by (simp only: one_row_per_month_def)
  also have "\<dots> = 1"
  proof -
    have "distinct (map Some [1..<13])"
      by (simp add: distinct_map)
    moreover from assms(2,3) have "Some k \<in> set (map Some [1..<13])"
      by simp
    ultimately show ?thesis
      by (simp only: distinct_count_atmost_1 if_True)
  qed
  finally show ?thesis .
qed

text \<open>
  Claim C4.  Let the loader return a collection, let the source of the year \<open>y\<close> of the range
  have one row per calendar month, and let \<open>l\<close> be a location column of the source of any
  year of the range.  Then the collection holds exactly 12 Observations of the year \<open>y\<close> and
  the location \<open>l\<close>, exactly one for each of the twelve months; their Month and AQI values
  are those of the rows of the source of \<open>y\<close> in the column \<open>l\<close>, and when that source has no
  column \<open>l\<close> the 12 Observations are there all the same, each without an AQI value.
\<close>

theorem twelve_observations_per_year_and_location:
  assumes "argsort_contract argsort" and "load_data argsort fs = Inr df"
    and "y \<in> set years" and "fs (file_path y) = Some src" and "one_row_per_month src"
    and "y' \<in> set years" and "fs (file_path y') = Some src'"
    and "l \<in> set (header src')" and "l \<notin> set id_vars"
  shows "length (filter (\<lambda>r. Year r = y \<and> Location r = l) df) = 12
         \<and> (\<forall>k\<in>{1..12}.
               length (filter (\<lambda>r. (Year r = y \<and> Location r = l) \<and> Date r = (y, k, 1)) df) = 1)
         \<and> mset (map (\<lambda>r. (Month r, AQI r)) (filter (\<lambda>r. Year r = y \<and> Location r = l) df))
             = mset (map (\<lambda>w. (fst w, if l \<in> set (header src) then snd w l else None)) (body src))
         \<and> (l \<notin> set (header src) \<longrightarrow>
               (\<forall>r\<in>set df. Year r = y \<and> Location r = l \<longrightarrow> AQI r = None))"
proof -
  let ?P = "\<lambda>r. Year r = y \<and> Location r = l"
  let ?g = "\<lambda>w::csv_row. \<lparr> Month = fst w, Year = y, Location = l,
                        AQI = (if l \<in> set (header src) then snd w l else None),
                        Date = (y, month_number (fst w), 1) \<rparr>"
  let ?u = "map observation_of (melt (combined_df (sources fs)))"
  from load_data_Inr [OF assms(2)] have u: "melted_dated fs = Inr ?u"
    and df: "df = sort_values argsort ?u"
    by blast+
  from assms(6-9) have "l \<in> set (value_vars (combined_df (sources fs)))"
    by (rule mem_value_vars_sources)
  with u assms(3,4) have F: "filter ?P ?u = map ?g (body src)"
    by (rule observations_of_year_location)
  have 1: "length (filter ?P df) = 12"
    unfolding df length_filter_sort_values [OF assms(1)] F
    using assms(5) by (simp add: one_row_per_month_length)
  have 2: "\<forall>k\<in>{1..12}. length (filter (\<lambda>r. ?P r \<and> Date r = (y, k, 1)) df) = 1"
  proof
    fix k :: nat assume "k \<in> {1..12}"
    then have k: "1 \<le> k" "k \<le> 12" by simp_all
    have "length (filter (\<lambda>r. ?P r \<and> Date r = (y, k, 1)) df)
            = length (filter (\<lambda>r. ?P r \<and> Date r = (y, k, 1)) ?u)"
      unfolding df by (rule length_filter_sort_values [OF assms(1)])
    also have "\<dots> = length (filter (\<lambda>r. Date r = (y, k, 1)) (filter ?P ?u))"
      by (simp only: filter_filter conj_commute)
    also have "\<dots> = length (filter (\<lambda>w. month_number (fst w) = k) (body src))"
      unfolding F by (simp add: filter_map comp_def)
    also have "\<dots> = 1"
      using assms(5) k by (rule one_row_per_month_once)
    finally show "length (filter (\<lambda>r. ?P r \<and> Date r = (y, k, 1)) df) = 1" .
  qed
  have M: "mset (filter ?P df) = mset (map ?g (body src))"
    unfolding df filter_sort_values [OF assms(1)] F ..
  have "mset (map (\<lambda>r. (Month r, AQI r)) (filter ?P df))
          = image_mset (\<lambda>r. (Month r, AQI r)) (mset (filter ?P df))"
    by simp
  also have "\<dots> = mset (map (\<lambda>w. (fst w, if l \<in> set (header src) then snd w l else None)) (body src))"
    unfolding M by (simp add: multiset.map_comp comp_def)
  finally have 3: "mset (map (\<lambda>r. (Month r, AQI r)) (filter ?P df))
          = mset (map (\<lambda>w. (fst w, if l \<in> set (header src) then snd w l else None)) (body src))" .
  have 4: "l \<notin> set (header src) \<longrightarrow> (\<forall>r\<in>set df. Year r = y \<and> Location r = l \<longrightarrow> AQI r = None)"
  proof (intro impI ballI)
    fix r assume a: "l \<notin> set (header src)" "r \<in> set df" "Year r = y \<and> Location r = l"
    then have "r \<in> set (filter ?P df)"
      by simp
    then have "r \<in># mset (filter ?P df)"
      by (simp only: set_mset_mset)
    then have "r \<in> set (map ?g (body src))"
      unfolding M by (simp only: set_mset_mset)
    with a(1) show "AQI r = None"
      by auto
  qed
  from 1 2 3 4 show ?thesis
    by (intro conjI)
qed

lemma load_full_years:
  "load_data argsort_stable fs_full_years = Inr (sort_values argsort_stable
      (map observation_of (melt (combined_df (sources fs_full_years)))))"
  by (rule load_data_ok)
     (simp_all add: fs_full_years_def twelve_months_def strptime_b_samples)

theorem twelve_observations_per_year_and_location_witness:
  "argsort_contract argsort_stable
   \<and> one_row_per_month \<lparr> header = [''A''], body = map (\<lambda>m. (m, cells_ab)) twelve_months \<rparr>
   \<and> fs_full_years (file_path 2017)
       = Some \<lparr> header = [''A''], body = map (\<lambda>m. (m, cells_ab)) twelve_months \<rparr>
   \<and> (\<exists>df. load_data argsort_stable fs_full_years = Inr df
          \<and> length (filter (\<lambda>r. Year r = 2017 \<and> Location r = ''B'') df) = 12
          \<and> length (filter (\<lambda>r. (Year r = 2017 \<and> Location r = ''B'') \<and> Date r = (2017, 3, 1)) df) = 1
          \<and> list_all (\<lambda>r. AQI r = None) (filter (\<lambda>r. Year r = 2017 \<and> Location r = ''B'') df))"
proof -
  let ?src = "\<lparr> header = [''A''], body = map (\<lambda>m. (m, cells_ab)) twelve_months \<rparr>"
  let ?src' = "\<lparr> header = [''A'', ''B''], body = map (\<lambda>m. (m, cells_ab)) twelve_months \<rparr>"
  let ?df = "sort_values argsort_stable (map observation_of (melt (combined_df (sources fs_full_years))))"
  have h3: "(2017::int) \<in> set years" and h6: "(2016::int) \<in> set years"
    by (simp_all add: years_list)
  have h4: "fs_full_years (file_path 2017) = Some ?src"
    by (simp add: fs_full_years_def file_path_def str_int_years)
  have "[1..<13] = [1, 2, 3, 4, 5, 6, 7, 8, 9, 10, 11, 12 :: nat]"
    by (simp add: upt_conv_Cons)
  then have h5: "one_row_per_month ?src"
    by (simp add: one_row_per_month_def twelve_months_def strptime_b_samples)
  have h7: "fs_full_years (file_path 2016) = Some ?src'"
    by (simp add: fs_full_years_def)
  have h8: "''B'' \<in> set (header ?src')"
    by simp
  have h9: "''B'' \<notin> set id_vars"
    by (simp add: id_vars_def)
  have absent: "''B'' \<notin> set (header ?src)"
    by simp
  note t = twelve_observations_per_year_and_location
             [OF argsort_stable_contract load_full_years h3 h4 h5 h6 h7 h8 h9]
  from t have a: "length (filter (\<lambda>r. Year r = 2017 \<and> Location r = ''B'') ?df) = 12"
    by (rule conjunct1)
  from t have "\<forall>k\<in>{1..12}.
      length (filter (\<lambda>r. (Year r = 2017 \<and> Location r = ''B'') \<and> Date r = (2017, k, 1)) ?df) = 1"
    by (elim conjE)
  then have b: "length (filter (\<lambda>r. (Year r = 2017 \<and> Location r = ''B'') \<and> Date r = (2017, 3, 1)) ?df) = 1"
    by simp
  from t absent have "\<forall>r\<in>set ?df. Year r = 2017 \<and> Location r = ''B'' \<longrightarrow> AQI r = None"
    by (elim conjE) (erule mp)
  then have c: "list_all (\<lambda>r. AQI r = None) (filter (\<lambda>r. Year r = 2017 \<and> Location r = ''B'') ?df)"
    by (simp add: list_all_iff)
  show ?thesis
  proof (intro conjI exI)
    show "argsort_contract argsort_stable" by (rule argsort_stable_contract)
    show "one_row_per_month ?src" by (rule h5)
    show "fs_full_years (file_path 2017) = Some ?src" by (rule h4)
    show "load_data argsort_stable fs_full_years = Inr ?df" by (rule load_full_years)
    show "length (filter (\<lambda>r. Year r = 2017 \<and> Location r = ''B'') ?df) = 12" by (rule a)
    show "length (filter (\<lambda>r. (Year r = 2017 \<and> Location r = ''B'') \<and> Date r = (2017, 3, 1)) ?df) = 1"
      by (rule b)
    show "list_all (\<lambda>r. AQI r = None) (filter (\<lambda>r. Year r = 2017 \<and> Location r = ''B'') ?df)"
      by (rule c)
  qed
qed

section \<open>The classifier on a loaded collection\<close>

lemma load_two_locations_rows:
  "load_data argsort_stable fs_two_locations
     = Inr (concat (map (\<lambda>y. [january ''A'' 40 y, january ''B'' 120 y]) years))"
  by (simp add: loader_defs argsort_stable_def fs_two_locations_def january_def)

lemma good_two_locations_rows:
  "filtered_df (Finite 0) (Finite 50) (concat (map (\<lambda>y. [january ''A'' 40 y, january ''B'' 120 y]) years))
     = map (january ''A'' 40) years"
  by (simp add: filtered_df_def years_list january_def)

lemma chart_good_two_locations:
  "index (chart_data (map (january ''A'' 40) years)) = [''A'']"
  "cols (chart_data (map (january ''A'' 40) years)) = years"
  "entry (chart_data (map (january ''A'' 40) years)) ''A'' 2016 = Some 1"
  "entry (chart_data (map (january ''A'' 40) years)) ''B'' 2016 = None"
  by (simp_all add: entry_def chart_data_def unstack_def groupby_size_def years_list january_def)

text \<open>
  The claim C1 as stated fails on the collection loaded from files in which every year has a
  January row with the AQI 40 at location A, in the band GOOD, and 120 at location B, outside
  it: the pair (B, 2016) occurs in the collection, and the counting table for GOOD has the
  single row A, so it has no entry for (B, 2016), not even zero.
\<close>

theorem location_outside_band_counterexample:
  "map_sum id
     (\<lambda>df. ((''B'', 2016) \<in> set (map (\<lambda>r. (Location r, Year r)) df),
            map_sum id (\<lambda>(filtered, table). (index table, cols table,
                                                entry table ''A'' 2016, entry table ''B'' 2016))
              (category_analysis ''GOOD'' df)))
     (load_data argsort_stable fs_two_locations)
   = Inr (True, Inr ([''A''], years, Some 1, None))"
proof -
  have "(''B'', 2016) \<in> set (map (\<lambda>r. (Location r, Year r))
          (concat (map (\<lambda>y. [january ''A'' 40 y, january ''B'' 120 y]) years)))"
    by (simp add: years_list january_def)
  then show ?thesis
    by (simp only: load_two_locations_rows category_analysis_Inr [OF getitem_names(1)]
          good_two_locations_rows chart_good_two_locations map_sum.simps prod.case id_apply)
qed

end
